theory Spec2Isabelle
  imports Main "HOL-Library.Sublist"
begin

section \<open>Python strings and values\<close>

text \<open>
  Python strings are modelled as \<^typ>\<open>string\<close>: lists of 8-bit characters, read as the
  code points U+0000 to U+00FF. The character predicates below list exactly the
  code points of that range that the corresponding Python predicate accepts.
\<close>

text \<open>\<^verbatim>\<open>sub in s\<close> for strings: \<open>sub\<close> occurs as a contiguous piece of \<open>s\<close>.\<close>

fun py_in :: "string \<Rightarrow> string \<Rightarrow> bool" where
  "py_in sub [] = (sub = [])"
| "py_in sub (c # cs) = (prefix sub (c # cs) \<or> py_in sub cs)"

definition is_digit :: "char \<Rightarrow> bool" where
  "is_digit c = (c \<in> set ''0123456789'')"

definition code :: "char \<Rightarrow> nat" where
  "code c = of_char c"

text \<open>\<^verbatim>\<open>str.isspace\<close> and \<^verbatim>\<open>\s\<close>: U+0009 to U+000D, U+001C to U+0020, U+0085, U+00A0.\<close>

definition is_space :: "char \<Rightarrow> bool" where
  "is_space c = (let n = code c in (9 \<le> n \<and> n \<le> 13) \<or> (28 \<le> n \<and> n \<le> 32) \<or> n = 133 \<or> n = 160)"

text \<open>\<^verbatim>\<open>[A-Za-z]\<close>.\<close>

definition is_letter :: "char \<Rightarrow> bool" where
  "is_letter c = (let n = code c in (65 \<le> n \<and> n \<le> 90) \<or> (97 \<le> n \<and> n \<le> 122))"

text \<open>
  \<^verbatim>\<open>\w\<close> on text: the underscore and every alphanumeric character, which up to
  U+00FF are the ASCII letters and digits, U+00AA, U+00B2, U+00B3, U+00B5, U+00B9, U+00BA,
  U+00BC to U+00BE, and U+00C0 to U+00FF without the signs U+00D7 and U+00F7.
\<close>

definition is_word :: "char \<Rightarrow> bool" where
  "is_word c = (let n = code c in
      is_letter c \<or> is_digit c \<or> n = 95
      \<or> n = 170 \<or> n = 178 \<or> n = 179 \<or> n = 181 \<or> n = 185 \<or> n = 186
      \<or> (188 \<le> n \<and> n \<le> 190)
      \<or> (192 \<le> n \<and> n \<noteq> 215 \<and> n \<noteq> 247))"

text \<open>Case folding as far as patterns written in ASCII can see it.\<close>

definition lower :: "char \<Rightarrow> char" where
  "lower c = (let n = code c in if 65 \<le> n \<and> n \<le> 90 then char_of (n + 32) else c)"

text \<open>\<^verbatim>\<open>s.strip()\<close> and \<^verbatim>\<open>s.strip(chars)\<close>.\<close>

definition strip_with :: "(char \<Rightarrow> bool) \<Rightarrow> string \<Rightarrow> string" where
  "strip_with p s = rev (dropWhile p (rev (dropWhile p s)))"

definition strip :: "string \<Rightarrow> string" where
  "strip s = strip_with is_space s"

definition strip_chars :: "string \<Rightarrow> string \<Rightarrow> string" where
  "strip_chars chars s = strip_with (\<lambda>c. c \<in> set chars) s"

text \<open>\<^verbatim>\<open>str(n)\<close> for an integer: its decimal numeral, with a leading minus sign when negative.\<close>

function str_nat :: "nat \<Rightarrow> string" where
  "str_nat n = (if n < 10 then [''0123456789'' ! n]
                else str_nat (n div 10) @ [''0123456789'' ! (n mod 10)])"
  by pat_completeness auto
termination
  by (relation "measure id") auto

declare str_nat.simps [simp del]

definition str_int :: "int \<Rightarrow> string" where
  "str_int i = (if i < 0 then CHR ''-'' # str_nat (nat (- i)) else str_nat (nat i))"

text \<open>A raised exception is kept as its message.\<close>

datatype exn = Exn string

section \<open>The site configuration\<close>

text \<open>
  The configuration dictionary, with the keys the functions below read. A selector
  that is missing, \<^verbatim>\<open>None\<close> or \<^verbatim>\<open>''\<close> is falsy in Python; all three are the empty
  string here. Keys read with a default (\<^verbatim>\<open>config.get(k, d)\<close>) are options.
\<close>

record config =
  company_name :: "string option"
  url :: string
  card_selector :: string
  title_selector :: string
  location_selector :: string
  posted_selector :: string
  description_selector :: string
  link_selector :: string
  use_metadata_parsing :: bool
  metadata_selector :: string
  pagination_type :: string
  pagination_selector :: string
  pagination_param :: "string option"
  pagination_step :: "int option"
  max_jobs :: int

section \<open>URL-parameter pagination\<close>

text \<open>
  \<^verbatim>\<open>handle_url_param_pagination\<close>, the computation of the next parameter value:
  \<^verbatim>\<open>
  if param == 'startrow':    next_value = (page_number - 1) * step + step
  elif param == 'page':      next_value = page_number + 1
  elif param == 'p':         next_value = page_number + 1
  elif param == 'jobOffset': next_value = (page_number - 1) * step + step
  else:                      next_value = page_number + 1
  \<close>
\<close>

definition next_value :: "string \<Rightarrow> int \<Rightarrow> int \<Rightarrow> int" where
  "next_value param step page_number =
     (if param = ''startrow'' then (page_number - 1) * step + step
      else if param = ''page'' then page_number + 1
      else if param = ''p'' then page_number + 1
      else if param = ''jobOffset'' then (page_number - 1) * step + step
      else page_number + 1)"

text \<open>
  \<^verbatim>\<open>re.sub(f'{param}=\\d+', f'{param}={next_value}', current_url)\<close>: every
  non-overlapping occurrence, from the left, of the text \<open>pat\<close> followed by one or more
  digits is replaced by \<open>repl\<close>; the digits are taken greedily. This is the
  substitution for a parameter name that the regular expression reads as literal text.
\<close>

function sub_param :: "string \<Rightarrow> string \<Rightarrow> string \<Rightarrow> string" where
  "sub_param pat repl [] = []"
| "sub_param pat repl (c # cs) =
     (if prefix pat (c # cs) \<and> (case drop (length pat) (c # cs) of [] \<Rightarrow> False | d # _ \<Rightarrow> is_digit d)
      then repl @ sub_param pat repl (dropWhile is_digit (drop (length pat) (c # cs)))
      else c # sub_param pat repl cs)"
  by pat_completeness auto
termination
proof (relation "measure (\<lambda>(pat, repl, s). length s)")
  show "wf (measure (\<lambda>(pat, repl, s). length s))" by simp
next
  fix pat repl :: string and c :: char and cs :: string
  assume h: "prefix pat (c # cs) \<and>
    (case drop (length pat) (c # cs) of [] \<Rightarrow> False | d # x \<Rightarrow> is_digit d)"
  then obtain d ds where d: "drop (length pat) (c # cs) = d # ds" "is_digit d"
    by (auto split: list.splits)
  have "length (dropWhile is_digit (d # ds)) \<le> length ds"
    using d(2) by (simp add: length_dropWhile_le)
  moreover have "length (d # ds) \<le> length (c # cs)"
    using d(1) by (metis length_drop diff_le_self)
  ultimately show "((pat, repl, dropWhile is_digit (drop (length pat) (c # cs))), pat, repl, c # cs)
        \<in> measure (\<lambda>(pat, repl, s). length s)"
    using d(1) by simp
next
  fix pat repl :: string and c :: char and cs :: string
  show "((pat, repl, cs), pat, repl, c # cs) \<in> measure (\<lambda>(pat, repl, s). length s)"
    by simp
qed

declare sub_param.simps [simp del]



text \<open>
  A parameter name made of word characters only stands for itself in a regular
  expression. For any other name the pattern \<^verbatim>\<open>f'{param}=\\d+'\<close> is whatever the
  \<^verbatim>\<open>re\<close> module makes of it, and compiling it may raise \<^verbatim>\<open>re.error\<close>; that call is
  the parameter \<open>re_sub\<close>, given the pattern, the replacement and the URL.
\<close>

definition literal_name :: "string \<Rightarrow> bool" where
  "literal_name param = list_all is_word param"

text \<open>The URL the function navigates to, or the exception raised on the way to it.\<close>

definition next_url ::
  "(string \<Rightarrow> string \<Rightarrow> string \<Rightarrow> exn + string) \<Rightarrow> string \<Rightarrow> int \<Rightarrow> string \<Rightarrow> exn + string" where
  "next_url re_sub param nv current_url =
     (if py_in (param @ ''='') current_url
      then (if literal_name param
            then Inr (sub_param (param @ ''='') (param @ ''='' @ str_int nv) current_url)
            else re_sub (param @ ''='' @ [CHR 0x5C] @ ''d+'') (param @ ''='' @ str_int nv) current_url)
      else Inr (current_url @ (if py_in ''?'' current_url then ''&'' else ''?'')
                  @ param @ ''='' @ str_int nv))"

text \<open>
  What the browser does during one call: the current URL, whether \<^verbatim>\<open>page.goto\<close> (or the
  wait after it) raises, and what counting the cards after the navigation gives.
\<close>

record url_page =
  page_url :: string
  goto_raises :: "exn option"
  cards_after_goto :: "exn + nat"

text \<open>
  The function returns whether pagination goes on; the model pairs it with the URL handed
  to \<^verbatim>\<open>page.goto\<close>, which is \<open>None\<close> when an exception came before the call. Every
  exception ends in \<^verbatim>\<open>return False\<close>.
\<close>

definition handle_url_param_pagination ::
  "(string \<Rightarrow> string \<Rightarrow> string \<Rightarrow> exn + string) \<Rightarrow> url_page \<Rightarrow> config \<Rightarrow> int \<Rightarrow> string option \<times> bool" where
  "handle_url_param_pagination re_sub page cfg page_number =
     (let param = (case pagination_param cfg of None \<Rightarrow> ''page'' | Some p \<Rightarrow> p);
          step = (case pagination_step cfg of None \<Rightarrow> 1 | Some s \<Rightarrow> s)
      in case next_url re_sub param (next_value param step page_number) (page_url page) of
           Inl e \<Rightarrow> (None, False)
         | Inr new_url \<Rightarrow>
             (Some new_url,
              (case goto_raises page of
                 Some e \<Rightarrow> False
               | None \<Rightarrow>
                   if card_selector cfg = [] then False
                   else (case cards_after_goto page of
                           Inl e \<Rightarrow> False
                         | Inr jobs_found \<Rightarrow> jobs_found \<noteq> 0))))"

section \<open>The deduplication gate\<close>

text \<open>
  \<^verbatim>\<open>get_db_connection\<close> and \<^verbatim>\<open>check_apply_link_exists\<close>. The database is the
  environment: the value of \<^verbatim>\<open>DATABASE_URL\<close>, what \<^verbatim>\<open>psycopg2.connect\<close> does with it,
  and, for an open connection, what the \<^verbatim>\<open>SELECT COUNT(*)\<close> for a link gives: the count,
  or an exception from the cursor, the query, the fetch or the close.
\<close>

datatype conn = Conn "string \<Rightarrow> exn + int"

record db_env =
  database_url :: "string option"
  connect :: "string \<Rightarrow> exn + conn"

definition get_db_connection :: "db_env \<Rightarrow> conn option" where
  "get_db_connection env =
     (case database_url env of
        None \<Rightarrow> None
      | Some u \<Rightarrow>
          if u = [] then None
          else (case connect env u of Inl e \<Rightarrow> None | Inr c \<Rightarrow> Some c))"

text \<open>The link is \<^verbatim>\<open>None\<close> when the record has no \<^verbatim>\<open>apply_link\<close> entry.\<close>

definition check_apply_link_exists :: "db_env \<Rightarrow> string option \<Rightarrow> bool" where
  "check_apply_link_exists env apply_link =
     (case apply_link of
        None \<Rightarrow> False
      | Some link \<Rightarrow>
          if link = [] \<or> link = ''N/A'' then False
          else (case get_db_connection env of
                  None \<Rightarrow> False
                | Some (Conn select_count) \<Rightarrow>
                    (case select_count link of
                       Inl e \<Rightarrow> False
                     | Inr count \<Rightarrow> if count > 0 then True else False)))"

section \<open>Button pagination\<close>

text \<open>
  \<^verbatim>\<open>handle_button_pagination\<close>. The page answers \<^verbatim>\<open>query_selector\<close> with an exception,
  with no element, or with the button; the button answers \<^verbatim>\<open>get_attribute\<close> with an
  exception, with \<^verbatim>\<open>None\<close> when it has no such attribute, or with the attribute's value
  (the empty string for a bare \<^verbatim>\<open><button disabled>\<close>); clicking may raise. A failed wait
  for the cards after the click is caught on the spot and changes nothing.
\<close>

record button =
  disabled_attribute :: "exn + string option"
  class_attribute :: "exn + string option"
  click_raises :: "exn option"

record button_page =
  query_next_button :: "exn + button option"

text \<open>The result says whether \<^verbatim>\<open>click()\<close> was called and what the function returned.\<close>

record button_outcome =
  clicked :: bool
  returned :: bool

text \<open>Python's truth value of \<^verbatim>\<open>get_attribute(...)\<close>: \<^verbatim>\<open>None\<close> and \<^verbatim>\<open>''\<close> are false.\<close>

definition truthy :: "string option \<Rightarrow> bool" where
  "truthy v = (case v of None \<Rightarrow> False | Some s \<Rightarrow> s \<noteq> [])"

definition handle_button_pagination :: "button_page \<Rightarrow> config \<Rightarrow> int \<Rightarrow> button_outcome" where
  "handle_button_pagination page cfg current_page =
     (if pagination_selector cfg = [] then \<lparr>clicked = False, returned = False\<rparr>
      else (case query_next_button page of
              Inl e \<Rightarrow> \<lparr>clicked = False, returned = False\<rparr>
            | Inr None \<Rightarrow> \<lparr>clicked = False, returned = False\<rparr>
            | Inr (Some next_button) \<Rightarrow>
                (case disabled_attribute next_button of
                   Inl e \<Rightarrow> \<lparr>clicked = False, returned = False\<rparr>
                 | Inr d \<Rightarrow>
                     if truthy d then \<lparr>clicked = False, returned = False\<rparr>
                     else (case class_attribute next_button of
                             Inl e \<Rightarrow> \<lparr>clicked = False, returned = False\<rparr>
                           | Inr c \<Rightarrow>
                               if py_in ''disabled'' (case c of None \<Rightarrow> [] | Some cl \<Rightarrow> cl)
                               then \<lparr>clicked = False, returned = False\<rparr>
                               else (case click_raises next_button of
                                       Some e \<Rightarrow> \<lparr>clicked = True, returned = False\<rparr>
                                     | None \<Rightarrow> \<lparr>clicked = True, returned = True\<rparr>)))))"

section \<open>Infinite scroll\<close>

text \<open>
  \<^verbatim>\<open>handle_infinite_scroll\<close>. The page is what it answers: \<open>count_cards n\<close> is the result
  of the \<open>n\<close>-th call of \<^verbatim>\<open>len(page.query_selector_all(card_selector))\<close>, counted from 0
  (the number of cards, or an exception), and \<open>scroll_raises j\<close> says whether the scroll
  of attempt \<open>j\<close> (counted from 0: the \<^verbatim>\<open>page.evaluate\<close> call or the pause after it)
  raises, and with what. Call 0 is the initial count, calls \<open>2 * j + 1\<close> and \<open>2 * j + 2\<close> are the counts
  before and after the scroll of attempt \<open>j\<close>. The wait for the card selector inside the
  loop is caught on the spot.
\<close>

record scroll_page =
  count_cards :: "nat \<Rightarrow> exn + nat"
  scroll_raises :: "nat \<Rightarrow> exn option"

definition max_consecutive_attempts :: nat where
  "max_consecutive_attempts = 3"

definition max_scrolls :: nat where
  "max_scrolls = 20"

text \<open>
  The \<^verbatim>\<open>while\<close> loop. It returns the number of scrolls made (the calls of
  \<^verbatim>\<open>page.evaluate\<close>), and whether it ran to its end or was left by an exception.
\<close>

function scroll_loop :: "scroll_page \<Rightarrow> nat \<Rightarrow> nat \<Rightarrow> (exn + unit) \<times> nat" where
  "scroll_loop page consecutive_no_load total_scrolls =
     (if consecutive_no_load < max_consecutive_attempts \<and> total_scrolls < max_scrolls
      then (case count_cards page (2 * total_scrolls + 1) of
              Inl e \<Rightarrow> (Inl e, total_scrolls)
            | Inr before_scroll_count \<Rightarrow>
                (case scroll_raises page total_scrolls of
                   Some e \<Rightarrow> (Inl e, total_scrolls + 1)
                 | None \<Rightarrow>
                     (case count_cards page (2 * total_scrolls + 2) of
                        Inl e \<Rightarrow> (Inl e, total_scrolls + 1)
                      | Inr after_scroll_count \<Rightarrow>
                          if after_scroll_count > before_scroll_count
                          then scroll_loop page 0 (total_scrolls + 1)
                          else scroll_loop page (consecutive_no_load + 1) (total_scrolls + 1))))
      else (Inr (), total_scrolls))"
  by pat_completeness auto
termination
  by (relation "measure (\<lambda>(page, consecutive_no_load, total_scrolls). max_scrolls - total_scrolls)") auto

declare scroll_loop.simps [simp del]

record scroll_outcome =
  scrolls :: nat
  loaded :: bool

definition handle_infinite_scroll :: "scroll_page \<Rightarrow> config \<Rightarrow> int \<Rightarrow> scroll_outcome" where
  "handle_infinite_scroll page cfg current_page =
     (case count_cards page 0 of
        Inl e \<Rightarrow> \<lparr>scrolls = 0, loaded = False\<rparr>
      | Inr initial_count \<Rightarrow>
          (case scroll_loop page 0 0 of
             (Inl e, n) \<Rightarrow> \<lparr>scrolls = n, loaded = False\<rparr>
           | (Inr u, n) \<Rightarrow>
               (case count_cards page (2 * n + 1) of
                  Inl e \<Rightarrow> \<lparr>scrolls = n, loaded = False\<rparr>
                | Inr final_count \<Rightarrow>
                    \<lparr>scrolls = n, loaded = (int final_count - int initial_count > 0)\<rparr>)))"


text \<open>
  What attempt \<open>j\<close> of the loop observes: an exception, or whether the scroll loaded new
  cards (\<^verbatim>\<open>after_scroll_count > before_scroll_count\<close>).
\<close>

definition scroll_attempt :: "scroll_page \<Rightarrow> nat \<Rightarrow> exn + bool" where
  "scroll_attempt page j =
     (case count_cards page (2 * j + 1) of
        Inl e \<Rightarrow> Inl e
      | Inr before_scroll_count \<Rightarrow>
          (case scroll_raises page j of
             Some e \<Rightarrow> Inl e
           | None \<Rightarrow>
               (case count_cards page (2 * j + 2) of
                  Inl e \<Rightarrow> Inl e
                | Inr after_scroll_count \<Rightarrow> Inr (after_scroll_count > before_scroll_count))))"

definition stalled :: "scroll_page \<Rightarrow> nat \<Rightarrow> bool" where
  "stalled page j = (scroll_attempt page j = Inr False)"

definition grows :: "scroll_page \<Rightarrow> nat \<Rightarrow> bool" where
  "grows page j = (scroll_attempt page j = Inr True)"

definition three_stalled :: "scroll_page \<Rightarrow> nat \<Rightarrow> bool" where
  "three_stalled page m = (3 \<le> m \<and> stalled page (m - 1) \<and> stalled page (m - 2) \<and> stalled page (m - 3))"

text \<open>
  The loop invariant: \<open>c\<close> counts the stalled attempts that end the \<open>t\<close> attempts made so
  far, and no three stalled attempts in a row ended before \<open>t\<close>.
\<close>

definition scroll_inv :: "scroll_page \<Rightarrow> nat \<Rightarrow> nat \<Rightarrow> bool" where
  "scroll_inv page c t =
     (c \<le> t \<and> c \<le> max_consecutive_attempts \<and> t \<le> max_scrolls
      \<and> (\<forall>i<c. stalled page (t - 1 - i))
      \<and> (c < t \<longrightarrow> \<not> stalled page (t - 1 - c))
      \<and> (\<forall>m<t. \<not> three_stalled page m))"

section \<open>Regular expressions\<close>

text \<open>
  The patterns of \<^verbatim>\<open>parse_metadata\<close> are kept as data and run by a backtracking matcher
  with Python's order of preference: the left alternative first, a greedy repetition
  longest first, a lazy one shortest first. Only the constructs those patterns use are
  here, and repetition applies to single characters, as it does in every one of them.
\<close>

datatype cclass =
    Any
  | Digit
  | Space
  | Word
  | Letter
  | OneOf string
  | Union cclass cclass
  | Except cclass

fun in_class :: "bool \<Rightarrow> cclass \<Rightarrow> char \<Rightarrow> bool" where
  "in_class ic Any c = (c \<noteq> CHR 0x0A)"
| "in_class ic Digit c = is_digit c"
| "in_class ic Space c = is_space c"
| "in_class ic Word c = is_word c"
| "in_class ic Letter c = is_letter c"
| "in_class ic (OneOf cs) c = (if ic then lower c \<in> set (map lower cs) else c \<in> set cs)"
| "in_class ic (Union a b) c = (in_class ic a c \<or> in_class ic b c)"
| "in_class ic (Except a) c = (\<not> in_class ic a c)"

datatype rx =
    Lit string
  | Cls cclass
  | Rep cclass nat "nat option" bool
  | Seq rx rx
  | Alt rx rx
  | Opt rx
  | Grp nat rx
  | Bol
  | Eol

fun lit_prefix :: "bool \<Rightarrow> string \<Rightarrow> string \<Rightarrow> bool" where
  "lit_prefix ic [] s = True"
| "lit_prefix ic (p # ps) [] = False"
| "lit_prefix ic (p # ps) (c # cs) =
     ((if ic then lower p = lower c else p = c) \<and> lit_prefix ic ps cs)"

text \<open>
  \<open>rep_greedy p lo hi k s\<close>: between \<open>lo\<close> and \<open>hi\<close> characters satisfying \<open>p\<close>, as many
  as possible, giving one back at a time while the rest of the pattern \<open>k\<close> fails.
  \<open>rep_lazy\<close>: as few as possible, taking one more at a time while \<open>k\<close> fails.
\<close>

fun rep_greedy :: "(char \<Rightarrow> bool) \<Rightarrow> nat \<Rightarrow> nat option \<Rightarrow> (string \<Rightarrow> 'a option) \<Rightarrow> string \<Rightarrow> 'a option" where
  "rep_greedy p lo hi k [] = (if lo = 0 then k [] else None)"
| "rep_greedy p lo hi k (c # cs) =
     (if p c \<and> hi \<noteq> Some 0
      then (case rep_greedy p (lo - 1) (map_option (\<lambda>h. h - 1) hi) k cs of
              Some r \<Rightarrow> Some r
            | None \<Rightarrow> if lo = 0 then k (c # cs) else None)
      else if lo = 0 then k (c # cs) else None)"

fun rep_lazy :: "(char \<Rightarrow> bool) \<Rightarrow> nat \<Rightarrow> nat option \<Rightarrow> (string \<Rightarrow> 'a option) \<Rightarrow> string \<Rightarrow> 'a option" where
  "rep_lazy p lo hi k [] = (if lo = 0 then k [] else None)"
| "rep_lazy p lo hi k (c # cs) =
     (if lo = 0
      then (case k (c # cs) of
              Some r \<Rightarrow> Some r
            | None \<Rightarrow> if p c \<and> hi \<noteq> Some 0
                      then rep_lazy p 0 (map_option (\<lambda>h. h - 1) hi) k cs else None)
      else if p c \<and> hi \<noteq> Some 0
           then rep_lazy p (lo - 1) (map_option (\<lambda>h. h - 1) hi) k cs else None)"

text \<open>
  Captured groups, latest first. \<open>rmatch ic n r k s caps\<close> matches \<open>r\<close> at the front of
  \<open>s\<close> and hands what is left to \<open>k\<close>; \<open>ic\<close> is \<^verbatim>\<open>re.IGNORECASE\<close> and \<open>n\<close> the length
  of the whole subject, by which \<^verbatim>\<open>^\<close> knows the start. \<^verbatim>\<open>$\<close> holds at the end and
  before a final line break.
\<close>

type_synonym caps = "(nat \<times> string) list"

fun rmatch :: "bool \<Rightarrow> nat \<Rightarrow> rx \<Rightarrow> (string \<Rightarrow> caps \<Rightarrow> 'a option) \<Rightarrow> string \<Rightarrow> caps \<Rightarrow> 'a option" where
  "rmatch ic n (Lit l) k s c = (if lit_prefix ic l s then k (drop (length l) s) c else None)"
| "rmatch ic n (Cls cl) k s c =
     (case s of [] \<Rightarrow> None | x # xs \<Rightarrow> if in_class ic cl x then k xs c else None)"
| "rmatch ic n (Rep cl lo hi greedy) k s c =
     (if greedy then rep_greedy (in_class ic cl) lo hi (\<lambda>s'. k s' c) s
      else rep_lazy (in_class ic cl) lo hi (\<lambda>s'. k s' c) s)"
| "rmatch ic n (Seq r1 r2) k s c = rmatch ic n r1 (\<lambda>s' c'. rmatch ic n r2 k s' c') s c"
| "rmatch ic n (Alt r1 r2) k s c =
     (case rmatch ic n r1 k s c of Some r \<Rightarrow> Some r | None \<Rightarrow> rmatch ic n r2 k s c)"
| "rmatch ic n (Opt r) k s c =
     (case rmatch ic n r k s c of Some r \<Rightarrow> Some r | None \<Rightarrow> k s c)"
| "rmatch ic n (Grp g r) k s c =
     rmatch ic n r (\<lambda>s' c'. k s' ((g, take (length s - length s') s) # c')) s c"
| "rmatch ic n Bol k s c = (if length s = n then k s c else None)"
| "rmatch ic n Eol k s c = (if s = [] \<or> s = [CHR 0x0A] then k s c else None)"

text \<open>\<^verbatim>\<open>re.match\<close>: the groups of a match at the start of the subject.\<close>

definition re_match :: "bool \<Rightarrow> rx \<Rightarrow> string \<Rightarrow> caps option" where
  "re_match ic r s = rmatch ic (length s) r (\<lambda>s' c. Some c) s []"

text \<open>\<^verbatim>\<open>re.search\<close>: the groups of the first match, trying each start from the left.\<close>

fun search_from :: "bool \<Rightarrow> nat \<Rightarrow> rx \<Rightarrow> string \<Rightarrow> caps option" where
  "search_from ic n r [] = rmatch ic n r (\<lambda>s' c. Some c) [] []"
| "search_from ic n r (x # xs) =
     (case rmatch ic n r (\<lambda>s' c. Some c) (x # xs) [] of
        Some c \<Rightarrow> Some c
      | None \<Rightarrow> search_from ic n r xs)"

definition re_search :: "bool \<Rightarrow> rx \<Rightarrow> string \<Rightarrow> caps option" where
  "re_search ic r s = search_from ic (length s) r s"

text \<open>\<^verbatim>\<open>m.group(g)\<close>. Every group of the patterns below takes part in every match.\<close>

definition group :: "caps \<Rightarrow> nat \<Rightarrow> string" where
  "group c g = (case map_of c g of Some t \<Rightarrow> t | None \<Rightarrow> [])"

text \<open>
  \<^verbatim>\<open>re.sub(r, '', s)\<close>: every match, from the left and without overlap, is removed. An
  empty match removes nothing.
\<close>

function delete_from :: "bool \<Rightarrow> nat \<Rightarrow> rx \<Rightarrow> string \<Rightarrow> string" where
  "delete_from ic n r [] = []"
| "delete_from ic n r (x # xs) =
     (case rmatch ic n r (\<lambda>s' c. Some s') (x # xs) [] of
        Some s' \<Rightarrow> if length s' < length (x # xs) then delete_from ic n r s'
                   else x # delete_from ic n r xs
      | None \<Rightarrow> x # delete_from ic n r xs)"
  by pat_completeness auto
termination
  by (relation "measure (\<lambda>(ic, n, r, s). length s)") auto

definition re_delete :: "bool \<Rightarrow> rx \<Rightarrow> string \<Rightarrow> string" where
  "re_delete ic r s = delete_from ic (length s) r s"

fun seqs :: "rx list \<Rightarrow> rx" where
  "seqs [] = Lit []"
| "seqs [r] = r"
| "seqs (r # rs) = Seq r (seqs rs)"

fun alts :: "rx list \<Rightarrow> rx" where
  "alts [] = Lit []"
| "alts [r] = r"
| "alts (r # rs) = Alt r (alts rs)"

section \<open>The metadata text parser\<close>

datatype parsed =
    Two string string
  | Four string string string string

text \<open>\<^verbatim>\<open>Posted\s+([A-Za-z]{3,9} \d{1,2}, \d{4})(.*)\<close>\<close>

definition special_pattern :: rx where
  "special_pattern = seqs
     [Lit ''Posted'', Rep Space 1 None True,
      Grp 1 (seqs [Rep Letter 3 (Some 9) True, Lit '' '', Rep Digit 1 (Some 2) True, Lit '', '',
                   Rep Digit 4 (Some 4) True]),
      Grp 2 (Rep Any 0 None True)]"

text \<open>\<^verbatim>\<open>Experience[:\s]*([\w\-\s]+?years?)\<close>, with \<^verbatim>\<open>re.IGNORECASE\<close>\<close>

definition exp_pattern :: rx where
  "exp_pattern = seqs
     [Lit ''Experience'', Rep (Union (OneOf '':'') Space) 0 None True,
      Grp 1 (seqs [Rep (Union Word (Union (OneOf ''-'') Space)) 1 None False, Lit ''year'',
                   Opt (Lit ''s'')])]"

text \<open>\<^verbatim>\<open>Required Skill[:\s]*(.+)\<close>, with \<^verbatim>\<open>re.IGNORECASE\<close>\<close>

definition skill_pattern :: rx where
  "skill_pattern = seqs
     [Lit ''Required Skill'', Rep (Union (OneOf '':'') Space) 0 None True,
      Grp 1 (Rep Any 1 None True)]"

text \<open>\<^verbatim>\<open>([^,\n]+?)(?:\s+Full time|\s+Experience:|\s+Required Skill:|$)\<close>\<close>

definition loc_pattern :: rx where
  "loc_pattern = seqs
     [Grp 1 (Rep (Except (OneOf [CHR '','', CHR 0x0A])) 1 None False),
      alts [Seq (Rep Space 1 None True) (Lit ''Full time''),
            Seq (Rep Space 1 None True) (Lit ''Experience:''),
            Seq (Rep Space 1 None True) (Lit ''Required Skill:''),
            Eol]]"

text \<open>
  The three \<^verbatim>\<open>location_patterns\<close>, all with \<^verbatim>\<open>(?i)\<close>:
  \<^verbatim>\<open>(?:location[s]?[:\s]*)(.*?)(?:\n|posted|date|\d+/\d+|\d+ days?|\d+ hours?|$)\<close>,
  \<^verbatim>\<open>(.*?)(?:\s*\n|\s*posted|\s*date|\s*\d+/\d+|\s*\d+ days?|\s*\d+ hours?)\<close>,
  \<^verbatim>\<open>^([^(\n]*?)(?:\s*\([^)]*\))?(?:\s*\n|$)\<close>.
\<close>

definition digits1 :: rx where
  "digits1 = Rep Digit 1 None True"

definition spaces0 :: rx where
  "spaces0 = Rep Space 0 None True"

definition location_patterns :: "rx list" where
  "location_patterns =
     [seqs [Lit ''location'', Opt (Cls (OneOf ''s'')), Rep (Union (OneOf '':'') Space) 0 None True,
            Grp 1 (Rep Any 0 None False),
            alts [Lit [CHR 0x0A], Lit ''posted'', Lit ''date'',
                  seqs [digits1, Lit ''/'', digits1],
                  seqs [digits1, Lit '' day'', Opt (Lit ''s'')],
                  seqs [digits1, Lit '' hour'', Opt (Lit ''s'')],
                  Eol]],
      seqs [Grp 1 (Rep Any 0 None False),
            alts [seqs [spaces0, Lit [CHR 0x0A]], seqs [spaces0, Lit ''posted''],
                  seqs [spaces0, Lit ''date''],
                  seqs [spaces0, digits1, Lit ''/'', digits1],
                  seqs [spaces0, digits1, Lit '' day'', Opt (Lit ''s'')],
                  seqs [spaces0, digits1, Lit '' hour'', Opt (Lit ''s'')]]],
      seqs [Bol, Grp 1 (Rep (Except (OneOf [CHR ''('', CHR 0x0A])) 0 None False),
            Opt (seqs [spaces0, Lit ''('', Rep (Except (OneOf '')'')) 0 None True, Lit '')'']),
            alts [seqs [spaces0, Lit [CHR 0x0A]], Eol]]]"

text \<open>
  The six \<^verbatim>\<open>date_patterns\<close>, all with \<^verbatim>\<open>(?i)\<close>:
  \<^verbatim>\<open>(?:posted|date)[:\s]*(\d{1,2}/\d{1,2}/\d{2,4})\<close>, \<^verbatim>\<open>(\d{1,2}/\d{1,2}/\d{2,4})\<close>,
  \<^verbatim>\<open>(\d+ days? ago)\<close>, \<^verbatim>\<open>(\d+ hours? ago)\<close>, \<^verbatim>\<open>(yesterday|today)\<close>,
  \<^verbatim>\<open>(?:posting dates?)(\d{1,2}/\d{1,2}/\d{2,4})\<close>.
\<close>

definition slash_date :: rx where
  "slash_date = seqs [Rep Digit 1 (Some 2) True, Lit ''/'', Rep Digit 1 (Some 2) True, Lit ''/'',
                      Rep Digit 2 (Some 4) True]"

definition date_patterns :: "rx list" where
  "date_patterns =
     [seqs [alts [Lit ''posted'', Lit ''date''], Rep (Union (OneOf '':'') Space) 0 None True,
            Grp 1 slash_date],
      Grp 1 slash_date,
      Grp 1 (seqs [digits1, Lit '' day'', Opt (Lit ''s''), Lit '' ago'']),
      Grp 1 (seqs [digits1, Lit '' hour'', Opt (Lit ''s''), Lit '' ago'']),
      Grp 1 (alts [Lit ''yesterday'', Lit ''today'']),
      seqs [Lit ''posting date'', Opt (Lit ''s''), Grp 1 slash_date]]"

text \<open>\<^verbatim>\<open>^\d+[/\-]\d+\<close>, \<^verbatim>\<open>\s*\(.*?\)\s*$\<close> and \<^verbatim>\<open>\s*(hybrid|remote|on-?site)\s*$\<close>\<close>

definition date_like :: rx where
  "date_like = seqs [Bol, digits1, Cls (OneOf ''/-''), digits1]"

definition trailing_parens :: rx where
  "trailing_parens = seqs [spaces0, Lit ''('', Rep Any 0 None False, Lit '')'', spaces0, Eol]"

definition trailing_mode :: rx where
  "trailing_mode = seqs [spaces0,
      Grp 1 (alts [Lit ''hybrid'', Lit ''remote'', seqs [Lit ''on'', Opt (Lit ''-''), Lit ''site'']]),
      spaces0, Eol]"

text \<open>The loop over \<^verbatim>\<open>location_patterns\<close>: the first pattern that gives a location wins.\<close>

fun find_location :: "rx list \<Rightarrow> string \<Rightarrow> string" where
  "find_location [] text = ''N/A''"
| "find_location (pattern # patterns) text =
     (case re_search True pattern text of
        None \<Rightarrow> find_location patterns text
      | Some m \<Rightarrow>
          (let potential_location = strip (group m 1) in
           if potential_location \<noteq> [] \<and> re_match False date_like potential_location = None
           then (let cleaned = re_delete True trailing_mode
                                 (re_delete False trailing_parens potential_location)
                 in if length (strip cleaned) > 0 then strip cleaned
                    else find_location patterns text)
           else find_location patterns text))"

text \<open>The loop over \<^verbatim>\<open>date_patterns\<close>: the first pattern that matches wins.\<close>

fun find_date :: "rx list \<Rightarrow> string \<Rightarrow> string" where
  "find_date [] text = ''N/A''"
| "find_date (pattern # patterns) text =
     (case re_search True pattern text of
        None \<Rightarrow> find_date patterns text
      | Some m \<Rightarrow> strip (group m 1))"

definition parse_metadata :: "string \<Rightarrow> parsed" where
  "parse_metadata metadata_text =
     (if metadata_text = [] then Two ''N/A'' ''N/A''
      else
        (let text = strip metadata_text in
         case re_match False special_pattern text of
           Some special_match \<Rightarrow>
             Two (strip_chars '' ,'' (group special_match 2)) (strip (group special_match 1))
         | None \<Rightarrow>
             (let location_val = (case re_match False loc_pattern text of
                                    Some loc_match \<Rightarrow> strip (group loc_match 1)
                                  | None \<Rightarrow> ''N/A'');
                  experience_val = (case re_search True exp_pattern text of
                                      Some exp_match \<Rightarrow> strip (group exp_match 1)
                                    | None \<Rightarrow> ''N/A'');
                  skills_val = (case re_search True skill_pattern text of
                                  Some skill_match \<Rightarrow> strip (group skill_match 1)
                                | None \<Rightarrow> ''N/A'')
              in if experience_val \<noteq> ''N/A'' \<or> skills_val \<noteq> ''N/A''
                 then Four location_val ''N/A'' experience_val skills_val
                 else Two (find_location location_patterns text) (find_date date_patterns text))))"

section \<open>Card extraction\<close>

text \<open>
  \<^verbatim>\<open>extract_job_data\<close>. A block of the loop body ends in one of three ways: it goes on
  with a value, it leaves the loop with \<^verbatim>\<open>break\<close>, or an exception leaves the block.
\<close>

datatype 'a outcome = Returns 'a | Breaks | Raises exn

text \<open>
  The test every handler of the loop body applies to the exception it caught:
  \<^verbatim>\<open>error_msg = str(e).lower()\<close>, then
  \<^verbatim>\<open>'target page, context or browser has been closed' in error_msg or 'browser has been closed' in error_msg\<close>.
\<close>

fun is_browser_closed_error :: "exn \<Rightarrow> bool" where
  "is_browser_closed_error (Exn msg) =
     (py_in ''target page, context or browser has been closed'' (map lower msg)
      \<or> py_in ''browser has been closed'' (map lower msg))"

text \<open>
  What \<^verbatim>\<open>card.query_selector(selector)\<close> followed by \<^verbatim>\<open>.text_content()\<close> gives: an
  exception from either call, no element, or the element's text, which may be \<^verbatim>\<open>None\<close>.
  Calling \<^verbatim>\<open>.strip()\<close> on \<^verbatim>\<open>None\<close> raises the \<^verbatim>\<open>AttributeError\<close> below, inside the
  same \<^verbatim>\<open>try\<close>.
\<close>

type_synonym text_query = "exn + string option option"

definition none_has_no_strip :: exn where
  "none_has_no_strip = Exn (CHR 0x27 # ''NoneType' object has no attribute 'strip'' @ [CHR 0x27])"

text \<open>The body of the \<^verbatim>\<open>try\<close>: \<^verbatim>\<open>element.text_content().strip() if element else 'N/A'\<close>.\<close>

definition read_text :: "text_query \<Rightarrow> exn + string" where
  "read_text q =
     (case q of
        Inl e \<Rightarrow> Inl e
      | Inr None \<Rightarrow> Inr ''N/A''
      | Inr (Some None) \<Rightarrow> Inl none_has_no_strip
      | Inr (Some (Some t)) \<Rightarrow> Inr (strip t))"

text \<open>
  The block that extracts one text field (title, location, posted date, description):
  \<^verbatim>\<open>
  if config[selector]:
      try:
          element = card.query_selector(config[selector])
          job_data[field] = element.text_content().strip() if element else 'N/A'
      except Exception as e:
          error_msg = str(e).lower()
          if '...browser has been closed' in error_msg ...:
              browser_closed = True
              break
          job_data[field] = 'N/A'
  else:
      job_data[field] = 'N/A'
  \<close>
\<close>

definition extract_text_field :: "string \<Rightarrow> text_query \<Rightarrow> string outcome" where
  "extract_text_field selector q =
     (if selector \<noteq> []
      then (case read_text q of
              Inr v \<Rightarrow> Returns v
            | Inl e \<Rightarrow> if is_browser_closed_error e then Breaks else Returns ''N/A'')
      else Returns ''N/A'')"

text \<open>
  What the world answers while one card is processed: the check of \<^verbatim>\<open>page.url\<close>, the
  element queries, the \<^verbatim>\<open>href\<close> of the link element (\<^verbatim>\<open>None\<close> without the attribute) or
  of the card itself, the database, the page fetched by crawl4ai, the answer of Gemini and
  the clock, read once for the raw record and once more for the cleaned one.
\<close>

datatype jvalue = Str string | Null | Num int | Items "string list"

datatype gemini =
    ApiError exn
  | BadJson string exn
  | Parsed "string \<rightharpoonup> jvalue"

record card =
  page_url_check :: "exn option"
  title_q :: text_query
  metadata_q :: text_query
  location_q :: text_query
  posted_q :: text_query
  description_q :: text_query
  link_q :: "exn + string option option"
  card_href :: "exn + string option"
  db :: db_env
  crawl_details :: "exn + string"
  gemini_answer :: gemini
  now :: string
  now_cleaned :: string

type_synonym job_data = "string \<rightharpoonup> string"

type_synonym job = "string \<rightharpoonup> jvalue"

record stats =
  total_job_cards_found :: nat
  skipped_duplicates :: nat
  skipped_extraction_errors :: nat
  successful_extractions :: nat
  gemini_processing_errors :: nat
  crawl4ai_errors :: nat
  browser_closed_early :: bool

record loop_state =
  jobs :: "job list"
  stats :: stats
  browser_closed :: bool

text \<open>\<^verbatim>\<open>d.get(k, dflt)\<close>\<close>

definition get_or :: "('k \<rightharpoonup> 'v) \<Rightarrow> 'k \<Rightarrow> 'v \<Rightarrow> 'v" where
  "get_or d k dflt = (case d k of Some v \<Rightarrow> v | None \<Rightarrow> dflt)"

text \<open>
  The metadata block, entered when \<^verbatim>\<open>use_metadata_parsing\<close> and \<^verbatim>\<open>metadata_selector\<close>
  are set.
\<close>

definition metadata_unavailable :: "job_data \<Rightarrow> job_data" where
  "metadata_unavailable jd = jd(''location'' \<mapsto> ''N/A'', ''posted_date'' \<mapsto> ''N/A'', ''metadata_raw'' \<mapsto> ''N/A'')"

definition read_metadata :: "text_query \<Rightarrow> job_data \<Rightarrow> exn + job_data" where
  "read_metadata q jd =
     (case q of
        Inl e \<Rightarrow> Inl e
      | Inr None \<Rightarrow> Inr (metadata_unavailable jd)
      | Inr (Some None) \<Rightarrow> Inl none_has_no_strip
      | Inr (Some (Some t)) \<Rightarrow>
          (let metadata_text = strip t in
           case parse_metadata metadata_text of
             Four parsed_location parsed_posted_date parsed_experience parsed_skills \<Rightarrow>
               Inr (jd(''location'' \<mapsto> parsed_location, ''posted_date'' \<mapsto> parsed_posted_date,
                       ''experience'' \<mapsto> parsed_experience, ''skills'' \<mapsto> parsed_skills,
                       ''metadata_raw'' \<mapsto> metadata_text))
           | Two parsed_location parsed_posted_date \<Rightarrow>
               Inr (jd(''location'' \<mapsto> parsed_location, ''posted_date'' \<mapsto> parsed_posted_date,
                       ''metadata_raw'' \<mapsto> metadata_text))))"

definition extract_metadata :: "config \<Rightarrow> card \<Rightarrow> job_data \<Rightarrow> job_data outcome" where
  "extract_metadata cfg c jd =
     (if use_metadata_parsing cfg \<and> metadata_selector cfg \<noteq> []
      then (case read_metadata (metadata_q c) jd of
              Inr jd' \<Rightarrow> Returns jd'
            | Inl e \<Rightarrow> if is_browser_closed_error e then Breaks
                       else Returns (metadata_unavailable jd))
      else Returns jd)"

text \<open>
  The individual selectors. In the source they are the \<^verbatim>\<open>else\<close> of
  \<^verbatim>\<open>if browser_closed: break\<close>, so they run whether or not the metadata block ran.
\<close>

definition extract_individual :: "config \<Rightarrow> card \<Rightarrow> job_data \<Rightarrow> job_data outcome" where
  "extract_individual cfg c jd =
     (case extract_text_field (location_selector cfg) (location_q c) of
        Breaks \<Rightarrow> Breaks
      | Raises e \<Rightarrow> Raises e
      | Returns location \<Rightarrow>
          (case extract_text_field (posted_selector cfg) (posted_q c) of
             Breaks \<Rightarrow> Breaks
           | Raises e \<Rightarrow> Raises e
           | Returns posted_date \<Rightarrow>
               (case extract_text_field (description_selector cfg) (description_q c) of
                  Breaks \<Rightarrow> Breaks
                | Raises e \<Rightarrow> Raises e
                | Returns description \<Rightarrow>
                    Returns (jd(''location'' \<mapsto> location, ''posted_date'' \<mapsto> posted_date,
                                ''description'' \<mapsto> description)))))"

text \<open>The link: the \<^verbatim>\<open>href\<close> of the link element, or of the card without a link selector.\<close>

definition extract_href :: "config \<Rightarrow> card \<Rightarrow> string option outcome" where
  "extract_href cfg c =
     (if link_selector cfg \<noteq> []
      then (case link_q c of
              Inl e \<Rightarrow> if is_browser_closed_error e then Breaks else Returns None
            | Inr None \<Rightarrow> Returns None
            | Inr (Some href) \<Rightarrow> Returns href)
      else (case card_href c of
              Inl e \<Rightarrow> if is_browser_closed_error e then Breaks else Returns None
            | Inr href \<Rightarrow> Returns href))"

text \<open>
  \<^verbatim>\<open>urljoin(base_url, href)\<close> with \<^verbatim>\<open>base_url\<close> the scheme and host of the configured URL
  is the work of \<^verbatim>\<open>urllib\<close>; it is a parameter here.
\<close>

definition apply_link_of :: "(string \<Rightarrow> string \<Rightarrow> string) \<Rightarrow> config \<Rightarrow> string option \<Rightarrow> string" where
  "apply_link_of urljoin_base cfg href_opt =
     (case href_opt of
        None \<Rightarrow> ''N/A''
      | Some href \<Rightarrow>
          if href = [] then ''N/A''
          else if map lower (case company_name cfg of None \<Rightarrow> [] | Some n \<Rightarrow> n) = ''google''
          then (if prefix ''/jobs'' href
                then ''https://www.google.com/about/careers/applications'' @ href
                else if prefix ''jobs/'' href
                then ''https://www.google.com/about/careers/applications/'' @ href
                else if prefix ''/'' href then urljoin_base (url cfg) href
                else href)
          else (if prefix ''/'' href then urljoin_base (url cfg) href else href))"

text \<open>The fields added when absent, and the two the loop makes sure of afterwards.\<close>

definition standard_fields :: "config \<Rightarrow> card \<Rightarrow> (string \<times> string) list" where
  "standard_fields cfg c =
     [(''salary'', ''N/A''), (''employment_type'', ''N/A''), (''experience_level'', ''N/A''),
      (''department'', ''N/A''), (''requirements'', ''N/A''), (''benefits'', ''N/A''),
      (''deadline'', ''N/A''), (''job_id'', ''N/A''), (''tags'', ''N/A''), (''skills'', ''N/A''),
      (''remote_work'', ''N/A''), (''scraped_at'', now c), (''source_url'', url cfg),
      (''description'', ''N/A''), (''posted_date'', ''N/A'')]"

fun add_missing :: "(string \<times> string) list \<Rightarrow> job_data \<Rightarrow> job_data" where
  "add_missing [] jd = jd"
| "add_missing ((key, v) # kvs) jd =
     add_missing kvs (if jd key = None then jd(key \<mapsto> v) else jd)"

text \<open>The record built from the raw data when Gemini fails or its answer is not JSON.\<close>

definition str_or_null :: "job_data \<Rightarrow> string \<Rightarrow> jvalue" where
  "str_or_null jd k = (case jd k of Some v \<Rightarrow> Str v | None \<Rightarrow> Null)"

definition fallback_job :: "config \<Rightarrow> card \<Rightarrow> job_data \<Rightarrow> (string \<times> jvalue) list \<Rightarrow> job" where
  "fallback_job cfg c jd extra = map_of
     ([(''title'', Str (get_or jd ''title'' ''N/A'')),
       (''company'', Str (get_or jd ''company'' ''N/A'')),
       (''location'', Str (get_or jd ''location'' ''N/A'')),
       (''posted_date'', Str (get_or jd ''posted_date'' ''N/A'')),
       (''apply_link'', Str (get_or jd ''apply_link'' ''N/A'')),
       (''description'', Str (get_or jd ''description'' ''N/A'')),
       (''requirements'', Items []), (''preferred_qualifications'', Items []),
       (''responsibilities'', Items []), (''benefits'', Items []), (''skills'', Items []),
       (''tags'', Items []),
       (''job_id'', str_or_null jd ''job_id''), (''department'', str_or_null jd ''department''),
       (''employment_type'', str_or_null jd ''employment_type''),
       (''experience_level'', str_or_null jd ''experience_level''),
       (''remote_work'', str_or_null jd ''remote_work''), (''salary'', str_or_null jd ''salary''),
       (''deadline'', str_or_null jd ''deadline''),
       (''scraped_at'', Str (now_cleaned c)), (''source_url'', Str (url cfg)),
       (''job_details_info'', Str (get_or jd ''job_details_info'' ''N/A''))] @ extra)"

text \<open>
  The record built from Gemini's JSON: the required fields it lacks are taken from the raw
  data, and the list fields are made lists.
\<close>

fun split_on :: "char \<Rightarrow> string \<Rightarrow> string list" where
  "split_on sep [] = [[]]"
| "split_on sep (c # cs) =
     (if c = sep then [] # split_on sep cs
      else (case split_on sep cs of [] \<Rightarrow> [[c]] | w # ws \<Rightarrow> (c # w) # ws))"

definition as_list :: "jvalue option \<Rightarrow> jvalue" where
  "as_list v =
     (case v of
        Some (Str s) \<Rightarrow>
          if CHR '','' \<in> set s
          then Items (filter (\<lambda>item. item \<noteq> []) (map strip (split_on CHR '','' s)))
          else if s \<noteq> ''N/A'' then Items [s] else Items []
      | Some (Items xs) \<Rightarrow> Items xs
      | Some other \<Rightarrow> Items []
      | None \<Rightarrow> Items [])"

fun fill_required :: "string list \<Rightarrow> job_data \<Rightarrow> job \<Rightarrow> job" where
  "fill_required [] jd cleaned = cleaned"
| "fill_required (field # flds) jd cleaned =
     fill_required flds jd
       (if cleaned field = None then cleaned(field \<mapsto> Str (get_or jd field ''N/A'')) else cleaned)"

fun listify :: "string list \<Rightarrow> job \<Rightarrow> job" where
  "listify [] cleaned = cleaned"
| "listify (field # flds) cleaned = listify flds (cleaned(field \<mapsto> as_list (cleaned field)))"

definition gemini_job :: "config \<Rightarrow> card \<Rightarrow> job_data \<Rightarrow> job \<Rightarrow> job" where
  "gemini_job cfg c jd parsed =
     listify [''requirements'', ''preferred_qualifications'', ''responsibilities'', ''benefits'',
              ''skills'', ''tags'']
       ((fill_required [''title'', ''company'', ''location'', ''posted_date'', ''apply_link''] jd parsed)
          (''scraped_at'' \<mapsto> Str (now_cleaned c), ''source_url'' \<mapsto> Str (url cfg),
           ''job_details_info'' \<mapsto> Str (get_or jd ''job_details_info'' ''N/A'')))"

fun exn_text :: "exn \<Rightarrow> string" where
  "exn_text (Exn msg) = msg"

text \<open>
  One pass through the loop body for one card. \<open>Inl\<close> is \<^verbatim>\<open>break\<close>, \<open>Inr\<close> goes on to the
  next card, through the end of the body or a \<^verbatim>\<open>continue\<close>.
\<close>

definition finish_card :: "config \<Rightarrow> card \<Rightarrow> job_data \<Rightarrow> loop_state \<Rightarrow> loop_state" where
  "finish_card cfg c jd0 st =
     (let apply_link = get_or jd0 ''apply_link'' [];
          fetched = (if apply_link \<noteq> [] \<and> apply_link \<noteq> ''N/A''
                     then (case crawl_details c of Inl e \<Rightarrow> None | Inr md \<Rightarrow> Some md)
                     else Some ''N/A'');
          crawl_failed = (fetched = None);
          jd1 = jd0(''job_details_info'' \<mapsto> (case fetched of None \<Rightarrow> ''N/A'' | Some md \<Rightarrow> md));
          jd = add_missing (standard_fields cfg c) jd1;
          cleaned_job = (case gemini_answer c of
                           ApiError e \<Rightarrow>
                             fallback_job cfg c jd
                               [(''gemini_error'', Str (''Gemini API failed: '' @ exn_text e))]
                         | BadJson cleaned_text e \<Rightarrow>
                             fallback_job cfg c jd
                               [(''gemini_error'', Str (''JSON parsing failed: '' @ exn_text e)),
                                (''raw_gemini_response'', Str cleaned_text)]
                         | Parsed parsed \<Rightarrow> gemini_job cfg c jd parsed);
          gemini_failed = (case gemini_answer c of Parsed parsed \<Rightarrow> False | _ \<Rightarrow> True);
          s = stats st
      in st\<lparr>jobs := jobs st @ [cleaned_job],
             stats := s\<lparr>crawl4ai_errors := crawl4ai_errors s + (if crawl_failed then 1 else 0),
                        gemini_processing_errors :=
                          gemini_processing_errors s + (if gemini_failed then 1 else 0),
                        successful_extractions := successful_extractions s + 1\<rparr>\<rparr>)"

definition skip_on_error :: "loop_state \<Rightarrow> loop_state" where
  "skip_on_error st =
     st\<lparr>stats := (stats st)\<lparr>skipped_extraction_errors := skipped_extraction_errors (stats st) + 1\<rparr>\<rparr>"

definition process_card ::
  "(string \<Rightarrow> string \<Rightarrow> string) \<Rightarrow> config \<Rightarrow> card \<Rightarrow> loop_state \<Rightarrow> loop_state + loop_state" where
  "process_card urljoin_base cfg c st =
     (if browser_closed st then Inl st
      else if int (length (jobs st)) \<ge> max_jobs cfg \<and> pagination_type cfg \<noteq> ''infinite_scroll''
      then Inl st
      else (case page_url_check c of
              Some e \<Rightarrow> Inl (st\<lparr>browser_closed := True,
                                stats := (stats st)\<lparr>browser_closed_early := True\<rparr>\<rparr>)
            | None \<Rightarrow>
      (case extract_text_field (title_selector cfg) (title_q c) of
         Breaks \<Rightarrow> Inl (st\<lparr>browser_closed := True\<rparr>)
       | Raises e \<Rightarrow> Inr (skip_on_error st)
       | Returns title \<Rightarrow>
      (case extract_metadata cfg c
              [''title'' \<mapsto> title,
               ''company'' \<mapsto> (case company_name cfg of None \<Rightarrow> ''N/A'' | Some n \<Rightarrow> n)] of
         Breaks \<Rightarrow> Inl (st\<lparr>browser_closed := True\<rparr>)
       | Raises e \<Rightarrow> Inr (skip_on_error st)
       | Returns jd1 \<Rightarrow>
      (case extract_individual cfg c jd1 of
         Breaks \<Rightarrow> Inl (st\<lparr>browser_closed := True\<rparr>)
       | Raises e \<Rightarrow> Inr (skip_on_error st)
       | Returns jd2 \<Rightarrow>
      (case extract_href cfg c of
         Breaks \<Rightarrow> Inl (st\<lparr>browser_closed := True\<rparr>)
       | Raises e \<Rightarrow> Inr (skip_on_error st)
       | Returns href \<Rightarrow>
           (let jd3 = jd2(''apply_link'' \<mapsto> apply_link_of urljoin_base cfg href) in
            if check_apply_link_exists (db c) (jd3 ''apply_link'')
            then Inr (st\<lparr>stats := (stats st)\<lparr>skipped_duplicates := skipped_duplicates (stats st) + 1\<rparr>\<rparr>)
            else Inr (finish_card cfg c jd3 st))))))))"

text \<open>The \<^verbatim>\<open>for\<close> loop over the cards.\<close>

fun card_loop ::
  "(string \<Rightarrow> string \<Rightarrow> string) \<Rightarrow> config \<Rightarrow> card list \<Rightarrow> loop_state \<Rightarrow> loop_state" where
  "card_loop urljoin_base cfg [] st = st"
| "card_loop urljoin_base cfg (c # cs) st =
     (case process_card urljoin_base cfg c st of
        Inl st' \<Rightarrow> st'
      | Inr st' \<Rightarrow> card_loop urljoin_base cfg cs st')"

text \<open>
  The whole function. The page is what \<^verbatim>\<open>page.query_selector_all(card_selector)\<close> gives:
  an exception or the cards; the wait before it is caught on the spot. The result is the
  pair \<^verbatim>\<open>(jobs, stats)\<close> the source returns, with the local \<^verbatim>\<open>browser_closed\<close> beside it.
\<close>

definition initial_stats :: stats where
  "initial_stats =
     \<lparr>total_job_cards_found = 0, skipped_duplicates = 0, skipped_extraction_errors = 0,
      successful_extractions = 0, gemini_processing_errors = 0, crawl4ai_errors = 0,
      browser_closed_early = False\<rparr>"

definition extract_job_data ::
  "(string \<Rightarrow> string \<Rightarrow> string) \<Rightarrow> (exn + card list) \<Rightarrow> config \<Rightarrow> job list \<Rightarrow> loop_state" where
  "extract_job_data urljoin_base page cfg existing_jobs =
     (case page of
        Inl e \<Rightarrow> \<lparr>jobs = existing_jobs, stats = initial_stats, browser_closed = False\<rparr>
      | Inr job_cards \<Rightarrow>
          card_loop urljoin_base cfg job_cards
            \<lparr>jobs = existing_jobs,
             stats = initial_stats\<lparr>total_job_cards_found := length job_cards\<rparr>,
             browser_closed = False\<rparr>)"

section \<open>Sample inputs\<close>

text \<open>A configuration, a card that is read without trouble, and a card whose title query
  fails because the browser was closed. They serve as concrete inputs below.\<close>

definition sample_config :: config where
  "sample_config =
     \<lparr>company_name = Some ''Acme'', url = ''https://example.com/jobs'', card_selector = ''.job'',
      title_selector = ''h2'', location_selector = ''.loc'', posted_selector = [],
      description_selector = [], link_selector = ''a'', use_metadata_parsing = False,
      metadata_selector = [], pagination_type = ''button_click'', pagination_selector = ''a.next'',
      pagination_param = None, pagination_step = None, max_jobs = 100\<rparr>"

definition plain_card :: card where
  "plain_card =
     \<lparr>page_url_check = None, title_q = Inr (Some (Some '' Engineer '')), metadata_q = Inr None,
      location_q = Inr None, posted_q = Inr None, description_q = Inr None,
      link_q = Inr None, card_href = Inr None,
      db = \<lparr>database_url = None, connect = (\<lambda>u. Inl (Exn ''no database''))\<rparr>,
      crawl_details = Inr [], gemini_answer = ApiError (Exn ''no key''),
      now = ''2025-01-01T00:00:00'', now_cleaned = ''2025-01-01T00:00:01''\<rparr>"

definition closing_card :: card where
  "closing_card = plain_card
     \<lparr>title_q := Inl (Exn ''Target page, context or browser has been closed'')\<rparr>"

text \<open>A sample \<open>re_sub\<close>: one that raises on every pattern.\<close>

definition re_error :: "string \<Rightarrow> string \<Rightarrow> string \<Rightarrow> exn + string" where
  "re_error pattern repl s = Inl (Exn ''re.error'')"

text \<open>A sample \<open>urljoin_base\<close>: the configured URL followed by the path.\<close>

definition join_plain :: "string \<Rightarrow> string \<Rightarrow> string" where
  "join_plain base href = base @ href"

section \<open>Properties\<close>

subsection \<open>URL-parameter pagination\<close>








lemma requested_url:
  "fst (handle_url_param_pagination re_sub page cfg n) =
     (case next_url re_sub (case pagination_param cfg of None \<Rightarrow> ''page'' | Some p \<Rightarrow> p)
             (next_value (case pagination_param cfg of None \<Rightarrow> ''page'' | Some p \<Rightarrow> p)
                (case pagination_step cfg of None \<Rightarrow> 1 | Some s \<Rightarrow> s) n)
             (page_url page) of
        Inl e \<Rightarrow> None
      | Inr new_url \<Rightarrow> Some new_url)"
  by (simp add: handle_url_param_pagination_def Let_def split: sum.splits)






text \<open>
  Claim C10. The offset family \<open>(page_number - 1) * step + step\<close> is used for the parameter
  names \<^verbatim>\<open>startrow\<close> and \<^verbatim>\<open>jobOffset\<close> only. For \<^verbatim>\<open>page\<close>, \<^verbatim>\<open>p\<close> and every other
  name the next value is \<open>page_number + 1\<close>, and the configured step plays no part in it.
  The value is the one that reaches the URL: when the name is not yet in the URL, the
  function appends \<^verbatim>\<open>name=value\<close> with that value, whatever the name.
\<close>

theorem next_value_offset_family:
  "next_value param step n =
     (if param = ''startrow'' \<or> param = ''jobOffset'' then (n - 1) * step + step else n + 1)
   \<and> (param = (case pagination_param cfg of None \<Rightarrow> ''page'' | Some p \<Rightarrow> p)
        \<and> step = (case pagination_step cfg of None \<Rightarrow> 1 | Some s \<Rightarrow> s)
        \<and> \<not> py_in (param @ ''='') (page_url page) \<longrightarrow>
        fst (handle_url_param_pagination re_sub page cfg n) =
          Some (page_url page @ (if py_in ''?'' (page_url page) then ''&'' else ''?'') @ param @ ''=''
                  @ str_int (if param = ''startrow'' \<or> param = ''jobOffset''
                             then (n - 1) * step + step else n + 1)))"
proof (intro conjI impI)
  show family: "next_value param step n =
     (if param = ''startrow'' \<or> param = ''jobOffset'' then (n - 1) * step + step else n + 1)"
    for param step n
    by (simp add: next_value_def)
  assume h: "param = (case pagination_param cfg of None \<Rightarrow> ''page'' | Some p \<Rightarrow> p)
        \<and> step = (case pagination_step cfg of None \<Rightarrow> 1 | Some s \<Rightarrow> s)
        \<and> \<not> py_in (param @ ''='') (page_url page)"
  have p: "(case pagination_param cfg of None \<Rightarrow> ''page'' | Some p \<Rightarrow> p) = param"
    by (rule sym) (rule conjunct1 [OF h])
  have st: "(case pagination_step cfg of None \<Rightarrow> 1 | Some s \<Rightarrow> s) = step"
    by (rule sym) (rule conjunct1 [OF conjunct2 [OF h]])
  have absent: "\<not> py_in (param @ ''='') (page_url page)"
    by (rule conjunct2 [OF conjunct2 [OF h]])
  have "fst (handle_url_param_pagination re_sub page cfg n) =
        Some (page_url page @ (if py_in ''?'' (page_url page) then ''&'' else ''?'') @ param @ ''=''
                @ str_int (next_value param step n))"
    unfolding requested_url p st using absent by (simp add: next_url_def)
  then show "fst (handle_url_param_pagination re_sub page cfg n) =
          Some (page_url page @ (if py_in ''?'' (page_url page) then ''&'' else ''?'') @ param @ ''=''
                  @ str_int (if param = ''startrow'' \<or> param = ''jobOffset''
                             then (n - 1) * step + step else n + 1))"
    unfolding family .
qed

theorem next_value_offset_family_witness:
  "fst (handle_url_param_pagination re_error
          \<lparr>page_url = ''https://example.com/jobs'', goto_raises = None, cards_after_goto = Inr 7\<rparr>
          (sample_config\<lparr>pagination_param := Some ''jobOffset'', pagination_step := Some 10\<rparr>) 3)
     = Some ''https://example.com/jobs?jobOffset=30''
   \<and> fst (handle_url_param_pagination re_error
          \<lparr>page_url = ''https://example.com/jobs?q=dev'', goto_raises = None, cards_after_goto = Inr 7\<rparr>
          (sample_config\<lparr>pagination_param := Some ''pg[]'', pagination_step := Some 10\<rparr>) 3)
     = Some ''https://example.com/jobs?q=dev&pg[]=4''"
proof -
  let ?cfg = "\<lambda>p. sample_config\<lparr>pagination_param := Some p, pagination_step := Some 10\<rparr>"
  let ?pg = "\<lambda>u. \<lparr>page_url = u, goto_raises = None, cards_after_goto = Inr (7::nat)\<rparr>"
  have n30: "str_int 30 = ''30''" and n4: "str_int 4 = ''4''"
    by code_simp+
  have a1: "\<not> py_in (''jobOffset'' @ ''='') ''https://example.com/jobs''"
    and q1: "\<not> py_in ''?'' ''https://example.com/jobs''"
    and a2: "\<not> py_in (''pg[]'' @ ''='') ''https://example.com/jobs?q=dev''"
    and q2: "py_in ''?'' ''https://example.com/jobs?q=dev''"
    by code_simp+
  have w1: "fst (handle_url_param_pagination re_error (?pg ''https://example.com/jobs'') (?cfg ''jobOffset'') 3)
        = Some ''https://example.com/jobs?jobOffset=30''"
    using next_value_offset_family [of "''jobOffset''" 10 3 "?cfg ''jobOffset''"
        "?pg ''https://example.com/jobs''" re_error] a1 q1 n30
    by (simp del: py_in.simps)
  have w2: "fst (handle_url_param_pagination re_error (?pg ''https://example.com/jobs?q=dev'') (?cfg ''pg[]'') 3)
        = Some ''https://example.com/jobs?q=dev&pg[]=4''"
    using next_value_offset_family [of "''pg[]''" 10 3 "?cfg ''pg[]''"
        "?pg ''https://example.com/jobs?q=dev''" re_error] a2 q2 n4
    by (simp del: py_in.simps)
  show ?thesis using w1 w2 by blast
qed

subsection \<open>The deduplication gate\<close>

text \<open>
  Claim C4. The gate answers False for a link that is \<^verbatim>\<open>None\<close>, empty or \<^verbatim>\<open>'N/A'\<close>; it
  answers False when no connection can be had and when the lookup raises; and it answers
  True exactly when the link is a real one, a connection is open and the lookup gives a
  count above zero.
\<close>

theorem check_apply_link_exists_fail_open:
  "(link = None \<or> link = Some [] \<or> link = Some ''N/A'' \<longrightarrow> check_apply_link_exists env link = False)
   \<and> (get_db_connection env = None \<longrightarrow> check_apply_link_exists env link = False)
   \<and> (get_db_connection env = Some (Conn q) \<and> link = Some l \<and> q l = Inl e \<longrightarrow>
         check_apply_link_exists env link = False)
   \<and> (check_apply_link_exists env link = True \<longleftrightarrow>
         (\<exists>l q count. link = Some l \<and> l \<noteq> [] \<and> l \<noteq> ''N/A''
             \<and> get_db_connection env = Some (Conn q) \<and> q l = Inr count \<and> count > 0))"
proof (intro conjI impI)
  assume "link = None \<or> link = Some [] \<or> link = Some ''N/A''"
  then show "check_apply_link_exists env link = False"
    by (auto simp: check_apply_link_exists_def)
next
  assume "get_db_connection env = None"
  then show "check_apply_link_exists env link = False"
    by (auto simp: check_apply_link_exists_def split: option.splits)
next
  assume "get_db_connection env = Some (Conn q) \<and> link = Some l \<and> q l = Inl e"
  then show "check_apply_link_exists env link = False"
    by (simp add: check_apply_link_exists_def)
next
  show "check_apply_link_exists env link = True \<longleftrightarrow>
         (\<exists>l q count. link = Some l \<and> l \<noteq> [] \<and> l \<noteq> ''N/A''
             \<and> get_db_connection env = Some (Conn q) \<and> q l = Inr count \<and> count > 0)"
    by (auto simp: check_apply_link_exists_def split: option.splits conn.splits sum.splits)
qed

theorem check_apply_link_exists_fail_open_witness:
  "check_apply_link_exists \<lparr>database_url = None, connect = (\<lambda>u. Inl (Exn ''refused''))\<rparr> (Some ''N/A'') = False
   \<and> check_apply_link_exists \<lparr>database_url = Some ''postgres://db'', connect = (\<lambda>u. Inl (Exn ''refused''))\<rparr>
        (Some ''https://example.com/job/1'') = False
   \<and> check_apply_link_exists
        \<lparr>database_url = Some ''postgres://db'', connect = (\<lambda>u. Inr (Conn (\<lambda>l. Inl (Exn ''timeout''))))\<rparr>
        (Some ''https://example.com/job/1'') = False
   \<and> check_apply_link_exists
        \<lparr>database_url = Some ''postgres://db'', connect = (\<lambda>u. Inr (Conn (\<lambda>l. Inr 2)))\<rparr>
        (Some ''https://example.com/job/1'') = True"
proof -
  let ?down = "\<lparr>database_url = Some ''postgres://db'', connect = (\<lambda>u. Inl (Exn ''refused''))\<rparr>"
  let ?err = "\<lparr>database_url = Some ''postgres://db'',
                connect = (\<lambda>u. Inr (Conn (\<lambda>l. Inl (Exn ''timeout'') :: exn + int)))\<rparr>"
  let ?up = "\<lparr>database_url = Some ''postgres://db'', connect = (\<lambda>u. Inr (Conn (\<lambda>l. Inr 2)))\<rparr>"
  let ?l = "''https://example.com/job/1''"
  have a: "check_apply_link_exists \<lparr>database_url = None, connect = (\<lambda>u. Inl (Exn ''refused''))\<rparr> (Some ''N/A'') = False"
    using check_apply_link_exists_fail_open
      [of "Some ''N/A''" "\<lparr>database_url = None, connect = (\<lambda>u. Inl (Exn ''refused''))\<rparr>"]
    by simp
  have b: "check_apply_link_exists ?down (Some ?l) = False"
    using check_apply_link_exists_fail_open [of "Some ?l" ?down]
    by (simp add: get_db_connection_def)
  have c: "check_apply_link_exists ?err (Some ?l) = False"
    using check_apply_link_exists_fail_open
      [of "Some ?l" ?err "\<lambda>l. Inl (Exn ''timeout'')" ?l "Exn ''timeout''"]
    by (simp add: get_db_connection_def)
  have "\<exists>l q count. Some ?l = Some l \<and> l \<noteq> [] \<and> l \<noteq> ''N/A''
             \<and> get_db_connection ?up = Some (Conn q) \<and> q l = Inr count \<and> count > 0"
    by (rule exI [of _ ?l], rule exI [of _ "\<lambda>l. Inr 2"], rule exI [of _ 2])
       (simp add: get_db_connection_def)
  then have d: "check_apply_link_exists ?up (Some ?l) = True"
    using check_apply_link_exists_fail_open [of "Some ?l" ?up] by blast
  show ?thesis using a b c d by blast
qed

subsection \<open>Button pagination\<close>

lemma button_disabled_value_halts:
  "query_next_button page = Inr (Some b) \<Longrightarrow> disabled_attribute b = Inr (Some v) \<Longrightarrow> v \<noteq> [] \<Longrightarrow>
   handle_button_pagination page cfg n = \<lparr>clicked = False, returned = False\<rparr>"
  by (simp add: handle_button_pagination_def truthy_def)

lemma button_disabled_class_halts:
  "query_next_button page = Inr (Some b) \<Longrightarrow> class_attribute b = Inr (Some c) \<Longrightarrow> py_in ''disabled'' c \<Longrightarrow>
   handle_button_pagination page cfg n = \<lparr>clicked = False, returned = False\<rparr>"
  by (simp add: handle_button_pagination_def truthy_def split: sum.splits)

text \<open>
  Claim C7 at the bare boolean attribute. A next button written \<^verbatim>\<open><a class="next" disabled>\<close>
  carries the \<^verbatim>\<open>disabled\<close> attribute with the empty string as its value. The check
  \<^verbatim>\<open>if next_button.get_attribute('disabled')\<close> reads that value as false, so the function
  goes on, clicks the button and returns True.
\<close>

theorem button_bare_disabled_is_clicked:
  "handle_button_pagination
     \<lparr>query_next_button = Inr (Some \<lparr>disabled_attribute = Inr (Some []),
                                      class_attribute = Inr (Some ''next''),
                                      click_raises = None\<rparr>)\<rparr>
     (cfg\<lparr>pagination_selector := ''a.next''\<rparr>) n
   = \<lparr>clicked = True, returned = True\<rparr>"
  by (simp add: handle_button_pagination_def truthy_def)

subsection \<open>Infinite scroll\<close>

lemma scroll_loop_exit:
  "\<not> (c < max_consecutive_attempts \<and> t < max_scrolls) \<Longrightarrow> scroll_loop page c t = (Inr (), t)"
  by (subst scroll_loop.simps) (simp only: if_False)

lemma scroll_loop_loaded:
  "c < max_consecutive_attempts \<Longrightarrow> t < max_scrolls \<Longrightarrow> scroll_attempt page t = Inr True \<Longrightarrow>
   scroll_loop page c t = scroll_loop page 0 (t + 1)"
  by (subst scroll_loop.simps)
     (auto simp: scroll_attempt_def split: sum.splits option.splits)

lemma scroll_loop_same:
  "c < max_consecutive_attempts \<Longrightarrow> t < max_scrolls \<Longrightarrow> scroll_attempt page t = Inr False \<Longrightarrow>
   scroll_loop page c t = scroll_loop page (c + 1) (t + 1)"
  by (subst scroll_loop.simps)
     (auto simp: scroll_attempt_def split: sum.splits option.splits)

lemma scroll_loop_raised:
  "c < max_consecutive_attempts \<Longrightarrow> t < max_scrolls \<Longrightarrow> scroll_attempt page t = Inl e \<Longrightarrow>
   scroll_loop page c t = (Inl e, t) \<or> scroll_loop page c t = (Inl e, t + 1)"
  by (subst (1 2) scroll_loop.simps)
     (auto simp: scroll_attempt_def split: sum.splits option.splits)

lemma scroll_loop_bound: "t \<le> max_scrolls \<Longrightarrow> snd (scroll_loop page c t) \<le> max_scrolls"
proof (induction "max_scrolls - t" arbitrary: c t)
  case 0
  then have "\<not> (c < max_consecutive_attempts \<and> t < max_scrolls)" by simp
  then show ?case using "0.prems" by (simp add: scroll_loop_exit)
next
  case (Suc d)
  show ?case
  proof (cases "c < max_consecutive_attempts \<and> t < max_scrolls")
    case True
    then have t1: "t + 1 \<le> max_scrolls" and d: "d = max_scrolls - (t + 1)"
      using Suc.hyps(2) by simp_all
    show ?thesis
    proof (cases "scroll_attempt page t")
      case (Inl e)
      then show ?thesis using True t1 scroll_loop_raised [of c t page e] by auto
    next
      case (Inr b)
      show ?thesis
      proof (cases b)
        case loaded: True
        have "scroll_loop page c t = scroll_loop page 0 (t + 1)"
          using True Inr loaded by (simp add: scroll_loop_loaded)
        then show ?thesis using Suc.hyps(1) [OF d t1] by simp
      next
        case same: False
        have "scroll_loop page c t = scroll_loop page (c + 1) (t + 1)"
          using True Inr same by (simp add: scroll_loop_same)
        then show ?thesis using Suc.hyps(1) [OF d t1] by simp
      qed
    qed
  next
    case False
    then show ?thesis using Suc.prems by (simp add: scroll_loop_exit)
  qed
qed

lemma scroll_loop_grow:
  "\<forall>j. t \<le> j \<and> j < t + k \<longrightarrow> grows page j \<Longrightarrow> t + k \<le> max_scrolls \<Longrightarrow>
   c < max_consecutive_attempts \<Longrightarrow> 0 < k \<Longrightarrow>
   scroll_loop page c t = scroll_loop page 0 (t + k)"
proof (induction k arbitrary: c t)
  case 0
  then show ?case by simp
next
  case (Suc k)
  have g: "scroll_attempt page t = Inr True"
    using Suc.prems(1) by (simp add: grows_def)
  have step: "scroll_loop page c t = scroll_loop page 0 (t + 1)"
    using Suc.prems(2,3) g by (simp add: scroll_loop_loaded)
  show ?case
  proof (cases "k = 0")
    case True
    then show ?thesis using step by simp
  next
    case False
    have "scroll_loop page 0 (t + 1) = scroll_loop page 0 ((t + 1) + k)"
      by (rule Suc.IH) (use Suc.prems False in \<open>auto simp: max_consecutive_attempts_def\<close>)
    then show ?thesis using step by simp
  qed
qed

lemma scroll_loop_stall:
  assumes "stalled page t" "stalled page (t + 1)" "stalled page (t + 2)" "t + 3 \<le> max_scrolls"
  shows "scroll_loop page 0 t = (Inr (), t + 3)"
proof -
  have step: "scroll_loop page c j = scroll_loop page (c + 1) (j + 1)"
    if "c < 3" "j < max_scrolls" "stalled page j" for c j
    using that by (simp add: scroll_loop_same stalled_def max_consecutive_attempts_def)
  have "scroll_loop page 0 t = scroll_loop page (0 + 1) (t + 1)"
    by (rule step) (use assms in simp_all)
  also have "\<dots> = scroll_loop page (0 + 1 + 1) (t + 1 + 1)"
    by (rule step) (use assms in simp_all)
  also have "\<dots> = scroll_loop page (0 + 1 + 1 + 1) (t + 1 + 1 + 1)"
    by (rule step) (use assms in \<open>simp_all add: numeral_2_eq_2\<close>)
  also have "\<dots> = (Inr (), t + 1 + 1 + 1)"
    by (simp add: scroll_loop_exit max_consecutive_attempts_def)
  finally show ?thesis by simp
qed

lemma scroll_inv_not_three:
  assumes "scroll_inv page c t" "c < max_consecutive_attempts"
  shows "\<not> three_stalled page t"
proof
  assume ts: "three_stalled page t"
  then have t3: "3 \<le> t" by (simp add: three_stalled_def)
  with assms have ct: "c < t" by (simp add: max_consecutive_attempts_def)
  with assms have ns: "\<not> stalled page (t - 1 - c)" by (simp add: scroll_inv_def)
  have "c = 0 \<or> c = 1 \<or> c = 2" using assms(2) by (auto simp: max_consecutive_attempts_def)
  then show False
  proof (elim disjE)
    assume "c = 0" with ns ts show False by (simp add: three_stalled_def)
  next
    assume "c = 1"
    with ns have "\<not> stalled page (t - 2)" by (simp add: numeral_2_eq_2)
    with ts show False by (simp add: three_stalled_def)
  next
    assume "c = 2"
    with ns have "\<not> stalled page (t - 3)" by (simp add: numeral_3_eq_3)
    with ts show False by (simp add: three_stalled_def)
  qed
qed

lemma scroll_inv_three:
  assumes "scroll_inv page c t" "\<not> c < max_consecutive_attempts"
  shows "three_stalled page t"
proof -
  from assms have c3: "c = 3" by (simp add: scroll_inv_def max_consecutive_attempts_def)
  with assms(1) have t3: "3 \<le> t" and st: "\<forall>i<3. stalled page (t - 1 - i)"
    by (simp_all add: scroll_inv_def)
  have "stalled page (t - 1 - 0)" "stalled page (t - 1 - 1)" "stalled page (t - 1 - 2)"
    using st by simp_all
  then show ?thesis using t3 by (simp add: three_stalled_def numeral_2_eq_2 numeral_3_eq_3)
qed

lemma scroll_inv_grow:
  assumes "scroll_inv page c t" "c < max_consecutive_attempts" "t < max_scrolls" "grows page t"
  shows "scroll_inv page 0 (t + 1)"
proof -
  have nt: "\<not> three_stalled page t" using assms(1,2) by (rule scroll_inv_not_three)
  have ns: "\<not> stalled page t" using assms(4) by (simp add: grows_def stalled_def)
  have "\<forall>m<t + 1. \<not> three_stalled page m"
    using assms(1) nt by (auto simp: scroll_inv_def less_Suc_eq)
  then show ?thesis using assms ns by (simp add: scroll_inv_def)
qed

lemma scroll_inv_stall:
  assumes "scroll_inv page c t" "c < max_consecutive_attempts" "t < max_scrolls" "stalled page t"
  shows "scroll_inv page (c + 1) (t + 1)"
proof -
  have nt: "\<not> three_stalled page t" using assms(1,2) by (rule scroll_inv_not_three)
  have a: "\<forall>m<t + 1. \<not> three_stalled page m"
    using assms(1) nt by (auto simp: scroll_inv_def less_Suc_eq)
  have b: "\<forall>i<c + 1. stalled page (t + 1 - 1 - i)"
  proof (intro allI impI)
    fix i assume i: "i < c + 1"
    show "stalled page (t + 1 - 1 - i)"
    proof (cases i)
      case 0 then show ?thesis using assms(4) by simp
    next
      case (Suc i')
      then have "i' < c" using i by simp
      then have "stalled page (t - 1 - i')" using assms(1) by (simp add: scroll_inv_def)
      moreover have "t + 1 - 1 - i = t - 1 - i'" using Suc by simp
      ultimately show ?thesis by simp
    qed
  qed
  have c: "c + 1 < t + 1 \<longrightarrow> \<not> stalled page (t + 1 - 1 - (c + 1))"
    using assms(1) by (simp add: scroll_inv_def)
  show ?thesis
    unfolding scroll_inv_def using a b c assms by (simp add: scroll_inv_def)
qed

lemma scroll_loop_stops:
  "scroll_inv page c t \<Longrightarrow> scroll_loop page c t = (Inr u, n) \<Longrightarrow>
   t \<le> n \<and> n \<le> max_scrolls \<and> (three_stalled page n \<or> n = max_scrolls)
   \<and> (\<forall>m<n. \<not> three_stalled page m)"
proof (induction "max_scrolls - t" arbitrary: c t)
  case 0
  then have t: "t = max_scrolls" by (simp add: scroll_inv_def)
  then have "scroll_loop page c t = (Inr (), t)" by (simp add: scroll_loop_exit)
  then have "n = t" using "0.prems"(2) by simp
  then show ?case using t "0.prems"(1) by (simp add: scroll_inv_def)
next
  case (Suc d)
  show ?case
  proof (cases "c < max_consecutive_attempts \<and> t < max_scrolls")
    case True
    note guard = True
    then have d: "d = max_scrolls - (t + 1)" using Suc.hyps(2) by simp
    show ?thesis
    proof (cases "scroll_attempt page t")
      case (Inl e)
      then show ?thesis using guard Suc.prems(2) scroll_loop_raised [of c t page e] by auto
    next
      case (Inr b)
      show ?thesis
      proof (cases b)
        case loaded: True
        have inv: "scroll_inv page 0 (t + 1)"
          using guard Inr loaded by (intro scroll_inv_grow [OF Suc.prems(1)]) (simp_all add: grows_def)
        have "scroll_loop page c t = scroll_loop page 0 (t + 1)"
          using guard Inr loaded by (simp add: scroll_loop_loaded)
        then have run: "scroll_loop page 0 (t + 1) = (Inr u, n)"
          using Suc.prems(2) by simp
        have "t + 1 \<le> n \<and> n \<le> max_scrolls \<and> (three_stalled page n \<or> n = max_scrolls)
               \<and> (\<forall>m<n. \<not> three_stalled page m)"
          by (rule Suc.hyps(1) [OF d inv run])
        then show ?thesis by simp
      next
        case same: False
        have inv: "scroll_inv page (c + 1) (t + 1)"
          using guard Inr same by (intro scroll_inv_stall [OF Suc.prems(1)]) (simp_all add: stalled_def)
        have "scroll_loop page c t = scroll_loop page (c + 1) (t + 1)"
          using guard Inr same by (simp add: scroll_loop_same)
        then have run: "scroll_loop page (c + 1) (t + 1) = (Inr u, n)"
          using Suc.prems(2) by simp
        have "t + 1 \<le> n \<and> n \<le> max_scrolls \<and> (three_stalled page n \<or> n = max_scrolls)
               \<and> (\<forall>m<n. \<not> three_stalled page m)"
          by (rule Suc.hyps(1) [OF d inv run])
        then show ?thesis by simp
      qed
    qed
  next
    case False
    then have "scroll_loop page c t = (Inr (), t)" by (simp add: scroll_loop_exit)
    then have n: "n = t" using Suc.prems(2) by simp
    have le: "t \<le> max_scrolls" using Suc.prems(1) by (simp add: scroll_inv_def)
    have before: "\<forall>m<t. \<not> three_stalled page m" using Suc.prems(1) by (simp add: scroll_inv_def)
    have "three_stalled page t \<or> t = max_scrolls"
    proof (cases "c < max_consecutive_attempts")
      case True
      with False le show ?thesis by simp
    next
      case False
      with Suc.prems(1) show ?thesis by (simp add: scroll_inv_three)
    qed
    then show ?thesis using n le before by simp
  qed
qed

lemma scroll_loop_completes:
  "\<forall>j<max_scrolls. \<exists>b. scroll_attempt page j = Inr b \<Longrightarrow> \<exists>n. scroll_loop page c t = (Inr (), n)"
proof (induction "max_scrolls - t" arbitrary: c t)
  case 0
  then show ?case by (simp add: scroll_loop_exit)
next
  case (Suc d)
  show ?case
  proof (cases "c < max_consecutive_attempts \<and> t < max_scrolls")
    case True
    then have d: "d = max_scrolls - (t + 1)" using Suc.hyps(2) by simp
    from True Suc.prems obtain b where b: "scroll_attempt page t = Inr b" by blast
    show ?thesis
    proof (cases b)
      case loaded: True
      have "scroll_loop page c t = scroll_loop page 0 (t + 1)"
        using True b loaded by (simp add: scroll_loop_loaded)
      then show ?thesis using Suc.hyps(1) [OF d Suc.prems] by simp
    next
      case same: False
      have "scroll_loop page c t = scroll_loop page (c + 1) (t + 1)"
        using True b same by (simp add: scroll_loop_same)
      then show ?thesis using Suc.hyps(1) [OF d Suc.prems] by simp
    qed
  next
    case False
    then show ?thesis by (simp add: scroll_loop_exit)
  qed
qed

lemma scroll_inv_start: "scroll_inv page 0 0"
  by (simp add: scroll_inv_def)

lemma handle_scrolls: "scrolls (handle_infinite_scroll page cfg cp) =
    (case count_cards page 0 of Inl e \<Rightarrow> 0 | Inr i \<Rightarrow> snd (scroll_loop page 0 0))"
  by (simp add: handle_infinite_scroll_def split: sum.splits prod.splits)

text \<open>
  Claim C2. \<^verbatim>\<open>handle_infinite_scroll\<close> is a total function of the page, so it returns on
  every page, and it never makes more than 20 scrolls. When no call raises, the number of
  scrolls it makes is the first \<open>n\<close> at which the last three attempts loaded no new card,
  or 20 if there is no such \<open>n\<close> below 20. On a page where each of the first \<open>k\<close> scrolls
  loads new cards and the three scrolls after them load none, with \<open>k + 3 \<le> 20\<close>, it
  makes exactly \<open>k + 3\<close> scrolls.
\<close>

theorem infinite_scroll_terminates:
  "scrolls (handle_infinite_scroll page cfg cp) \<le> 20
   \<and> (count_cards page 0 = Inr i \<and> (\<forall>j<20. \<exists>b. scroll_attempt page j = Inr b) \<longrightarrow>
        (three_stalled page (scrolls (handle_infinite_scroll page cfg cp))
           \<or> scrolls (handle_infinite_scroll page cfg cp) = 20)
        \<and> (\<forall>m < scrolls (handle_infinite_scroll page cfg cp). \<not> three_stalled page m))
   \<and> (k + 3 \<le> 20 \<and> count_cards page 0 = Inr i
        \<and> (\<forall>j<k. grows page j) \<and> (\<forall>j. k \<le> j \<and> j < k + 3 \<longrightarrow> stalled page j) \<longrightarrow>
        scrolls (handle_infinite_scroll page cfg cp) = k + 3)"
proof (intro conjI impI)
  have "snd (scroll_loop page 0 0) \<le> max_scrolls"
    by (rule scroll_loop_bound) simp
  then show "scrolls (handle_infinite_scroll page cfg cp) \<le> 20"
    by (simp add: handle_scrolls max_scrolls_def split: sum.splits)
next
  assume h: "count_cards page 0 = Inr i \<and> (\<forall>j<20. \<exists>b. scroll_attempt page j = Inr b)"
  then have "\<forall>j<max_scrolls. \<exists>b. scroll_attempt page j = Inr b"
    by (simp add: max_scrolls_def)
  then obtain n where n: "scroll_loop page 0 0 = (Inr (), n)"
    using scroll_loop_completes by blast
  have sc: "scrolls (handle_infinite_scroll page cfg cp) = n"
    using h n by (simp add: handle_scrolls)
  have "0 \<le> n \<and> n \<le> max_scrolls \<and> (three_stalled page n \<or> n = max_scrolls)
          \<and> (\<forall>m<n. \<not> three_stalled page m)"
    by (rule scroll_loop_stops [OF scroll_inv_start n])
  then show "three_stalled page (scrolls (handle_infinite_scroll page cfg cp))
           \<or> scrolls (handle_infinite_scroll page cfg cp) = 20"
    and "\<forall>m < scrolls (handle_infinite_scroll page cfg cp). \<not> three_stalled page m"
    using sc by (simp_all add: max_scrolls_def)
next
  assume h: "k + 3 \<le> 20 \<and> count_cards page 0 = Inr i
        \<and> (\<forall>j<k. grows page j) \<and> (\<forall>j. k \<le> j \<and> j < k + 3 \<longrightarrow> stalled page j)"
  have grow: "scroll_loop page 0 0 = scroll_loop page 0 k"
  proof (cases "k = 0")
    case True
    then show ?thesis by simp
  next
    case False
    have "scroll_loop page 0 0 = scroll_loop page 0 (0 + k)"
      by (rule scroll_loop_grow) (use h False in \<open>simp_all add: max_scrolls_def max_consecutive_attempts_def\<close>)
    then show ?thesis by simp
  qed
  have "scroll_loop page 0 k = (Inr (), k + 3)"
    by (rule scroll_loop_stall) (use h in \<open>simp_all add: max_scrolls_def\<close>)
  then show "scrolls (handle_infinite_scroll page cfg cp) = k + 3"
    using grow h by (simp add: handle_scrolls)
qed

theorem infinite_scroll_terminates_witness:
  "scrolls (handle_infinite_scroll
      \<lparr>count_cards = (\<lambda>q. Inr (10 + 5 * min (q div 2) 2)), scroll_raises = (\<lambda>j. None)\<rparr>
      \<lparr>company_name = None, url = ''https://example.com/jobs'', card_selector = ''.job'',
       title_selector = ''h2'', location_selector = [], posted_selector = [],
       description_selector = [], link_selector = ''a'', use_metadata_parsing = False,
       metadata_selector = [], pagination_type = ''infinite_scroll'', pagination_selector = [],
       pagination_param = None, pagination_step = None, max_jobs = 100\<rparr> 1) = 2 + 3
   \<and> three_stalled \<lparr>count_cards = (\<lambda>q. Inr (10 + 5 * min (q div 2) 2)), scroll_raises = (\<lambda>j. None)\<rparr> 5
   \<and> \<not> three_stalled \<lparr>count_cards = (\<lambda>q. Inr (10 + 5 * min (q div 2) 2)), scroll_raises = (\<lambda>j. None)\<rparr> 4"
proof -
  let ?pg = "\<lparr>count_cards = (\<lambda>q. Inr (10 + 5 * min (q div 2) 2)), scroll_raises = (\<lambda>j. None)\<rparr>"
  let ?cfg = "\<lparr>company_name = None, url = ''https://example.com/jobs'', card_selector = ''.job'',
       title_selector = ''h2'', location_selector = [], posted_selector = [],
       description_selector = [], link_selector = ''a'', use_metadata_parsing = False,
       metadata_selector = [], pagination_type = ''infinite_scroll'', pagination_selector = [],
       pagination_param = None, pagination_step = None, max_jobs = 100\<rparr>"
  have att: "scroll_attempt ?pg j = Inr (j < 2)" for j
    by (auto simp: scroll_attempt_def min_def)
  have h0: "count_cards ?pg 0 = Inr 10" by simp
  have h1: "\<forall>j<20. \<exists>b. scroll_attempt ?pg j = Inr b" using att by blast
  have h2: "\<forall>j<2. grows ?pg j" unfolding grows_def att by auto
  have h3: "\<forall>j. 2 \<le> j \<and> j < 2 + 3 \<longrightarrow> stalled ?pg j" unfolding stalled_def att by auto
  have n: "scrolls (handle_infinite_scroll ?pg ?cfg 1) = 2 + 3"
    using infinite_scroll_terminates [of ?pg ?cfg 1 10 2] h0 h2 h3 by simp
  have "three_stalled ?pg (scrolls (handle_infinite_scroll ?pg ?cfg 1))
          \<or> scrolls (handle_infinite_scroll ?pg ?cfg 1) = 20"
    and "\<forall>m < scrolls (handle_infinite_scroll ?pg ?cfg 1). \<not> three_stalled ?pg m"
    using infinite_scroll_terminates [of ?pg ?cfg 1 10 2] h0 h1 by blast+
  then have "three_stalled ?pg 5" and "\<not> three_stalled ?pg 4"
    using n by simp_all
  then show ?thesis using n by simp
qed

subsection \<open>Card extraction\<close>







lemma process_card_jobs:
  "process_card uj cfg c st = Inl st' \<Longrightarrow> jobs st' = jobs st"
  "process_card uj cfg c st = Inr st' \<Longrightarrow>
     jobs st' = jobs st \<or> (\<exists>j. jobs st' = jobs st @ [j]
        \<and> (int (length (jobs st)) < max_jobs cfg \<or> pagination_type cfg = ''infinite_scroll''))"
  by (auto simp: process_card_def finish_card_def skip_on_error_def Let_def
           split: if_splits option.splits outcome.splits)

lemma card_loop_extends: "\<exists>new. jobs (card_loop uj cfg cs st) = jobs st @ new"
proof (induction cs arbitrary: st)
  case Nil
  then show ?case by simp
next
  case (Cons c cs)
  show ?case
  proof (cases "process_card uj cfg c st")
    case (Inl st')
    then show ?thesis using process_card_jobs(1) [OF Inl] by simp
  next
    case (Inr st')
    from Cons.IH [of st'] obtain new where "jobs (card_loop uj cfg cs st') = jobs st' @ new" ..
    then show ?thesis using process_card_jobs(2) [OF Inr] Inr by auto
  qed
qed







lemma closing_message:
  "is_browser_closed_error (Exn ''Target page, context or browser has been closed'')"
  by code_simp

lemma plain_title: "extract_text_field ''h2'' (Inr (Some (Some '' Engineer ''))) = Returns ''Engineer''"
  by code_simp

lemma finish_card_keeps:
  "length (jobs (finish_card cfg c jd st)) = length (jobs st) + 1"
  "browser_closed (finish_card cfg c jd st) = browser_closed st"
  "browser_closed_early (stats (finish_card cfg c jd st)) = browser_closed_early (stats st)"
  by (simp_all add: finish_card_def Let_def)

lemma plain_individual:
  "extract_individual cfg plain_card jd =
     Returns (jd(''location'' \<mapsto> ''N/A'', ''posted_date'' \<mapsto> ''N/A'', ''description'' \<mapsto> ''N/A''))"
  by (simp add: extract_individual_def extract_text_field_def read_text_def plain_card_def)

lemma plain_href: "extract_href cfg plain_card = Returns None"
  by (simp add: extract_href_def plain_card_def)

lemma no_link_not_duplicate: "check_apply_link_exists d (Some ''N/A'') = False"
  by (simp add: check_apply_link_exists_def)


lemma plain_step:
  assumes "\<not> browser_closed st" and "title_selector cfg = ''h2''" and "\<not> use_metadata_parsing cfg"
    and "int (length (jobs st)) < max_jobs cfg \<or> pagination_type cfg = ''infinite_scroll''"
  shows "\<exists>jd. process_card uj cfg plain_card st = Inr (finish_card cfg plain_card jd st)"
proof -
  have title: "extract_text_field (title_selector cfg) (title_q plain_card) = Returns ''Engineer''"
    using assms(2) plain_title by (simp add: plain_card_def)
  have alive: "page_url_check plain_card = None"
    by (simp add: plain_card_def)
  have meta: "extract_metadata cfg plain_card jd = Returns jd" for jd
    using assms(3) by (simp add: extract_metadata_def)
  have link: "apply_link_of uj cfg None = ''N/A''"
    by (simp add: apply_link_of_def)
  have guard: "\<not> (max_jobs cfg \<le> int (length (jobs st)) \<and> pagination_type cfg \<noteq> ''infinite_scroll'')"
    using assms(4) by auto
  show ?thesis
    unfolding process_card_def
    by (simp only: assms(1) guard if_False alive option.case title outcome.case meta
          plain_individual plain_href Let_def link fun_upd_same no_link_not_duplicate) blast
qed

lemma title_closed_step:
  assumes "\<not> browser_closed st" and "title_selector cfg \<noteq> []" and "page_url_check c = None"
    and "title_q c = Inl e" and "is_browser_closed_error e"
    and "int (length (jobs st)) < max_jobs cfg \<or> pagination_type cfg = ''infinite_scroll''"
  shows "process_card uj cfg c st = Inl (st\<lparr>browser_closed := True\<rparr>)"
proof -
  have title: "extract_text_field (title_selector cfg) (title_q c) = Breaks"
    using assms(2,4,5) by (simp add: extract_text_field_def read_text_def)
  have guard: "\<not> (max_jobs cfg \<le> int (length (jobs st)) \<and> pagination_type cfg \<noteq> ''infinite_scroll'')"
    using assms(6) by auto
  show ?thesis
    unfolding process_card_def
    by (simp only: assms(1,3) guard if_False option.case title outcome.case)
qed

lemma closing_step:
  assumes "\<not> browser_closed st" and "title_selector cfg = ''h2''"
    and "int (length (jobs st)) < max_jobs cfg \<or> pagination_type cfg = ''infinite_scroll''"
  shows "process_card uj cfg closing_card st = Inl (st\<lparr>browser_closed := True\<rparr>)"
  by (rule title_closed_step [OF assms(1) _ _ _ closing_message assms(3)])
     (simp_all add: assms(2) closing_card_def plain_card_def)


text \<open>
  Claim C1 at a browser closed during the title query. Of three cards the second raises
  \<^verbatim>\<open>Target page, context or browser has been closed\<close> when its title is queried. The
  loop stops there: the record of the first card is kept, none is added for the second,
  the third is never reached, and the local \<^verbatim>\<open>browser_closed\<close> is set. But
  \<^verbatim>\<open>stats['browser_closed_early']\<close> is only set where \<^verbatim>\<open>page.url\<close> fails, and the
  returned statistics still say False.
\<close>

theorem browser_closed_early_not_flagged:
  "length (jobs (extract_job_data join_plain (Inr [plain_card, closing_card, plain_card]) sample_config [])) = 1
   \<and> browser_closed (extract_job_data join_plain (Inr [plain_card, closing_card, plain_card]) sample_config [])
   \<and> \<not> browser_closed_early
         (stats (extract_job_data join_plain (Inr [plain_card, closing_card, plain_card]) sample_config []))"
proof -
  let ?st0 = "\<lparr>jobs = [], stats = initial_stats\<lparr>total_job_cards_found := length [plain_card, closing_card, plain_card]\<rparr>,
               browser_closed = False\<rparr>"
  have cfg: "title_selector sample_config = ''h2''" "\<not> use_metadata_parsing sample_config"
    "max_jobs sample_config = 100"
    by (simp_all add: sample_config_def)
  obtain jd where first: "process_card join_plain sample_config plain_card ?st0
        = Inr (finish_card sample_config plain_card jd ?st0)"
    using plain_step [of ?st0 sample_config join_plain] cfg by auto
  let ?st1 = "finish_card sample_config plain_card jd ?st0"
  have one: "length (jobs ?st1) = 1" and open1: "\<not> browser_closed ?st1"
    and flag1: "\<not> browser_closed_early (stats ?st1)"
    by (simp_all add: finish_card_keeps initial_stats_def)
  have second: "process_card join_plain sample_config closing_card ?st1 = Inl (?st1\<lparr>browser_closed := True\<rparr>)"
    by (rule closing_step [OF open1 cfg(1)]) (simp add: finish_card_keeps cfg(3))
  have run: "extract_job_data join_plain (Inr [plain_card, closing_card, plain_card]) sample_config []
        = ?st1\<lparr>browser_closed := True\<rparr>"
    unfolding extract_job_data_def by (simp only: sum.case card_loop.simps first second)
  show ?thesis
    unfolding run using one flag1 by simp
qed







end
